theory Spec2Isabelle
  imports Main "HOL-Library.Sublist"
begin

section \<open>Python strings and dictionaries\<close>

text \<open>
  A Python \<^verbatim>\<open>str\<close> is a sequence of Unicode code points, so a string is a list of
  natural numbers (the code points) and not a list of bytes: the status texts of
  \<^verbatim>\<open>main.py\<close> and the system prompt contain code points above 255.  ASCII literals are
  written through \<open>ustr\<close>.
\<close>

type_synonym uchar = nat
type_synonym pystr = "uchar list"

definition ustr :: "string \<Rightarrow> pystr" where
  "ustr = map of_char"

text \<open>\<^verbatim>\<open>str.isspace\<close> on one code point: the characters \<^verbatim>\<open>str.strip()\<close> removes.\<close>

definition isspace :: "uchar \<Rightarrow> bool" where
  "isspace c \<longleftrightarrow>
     (9 \<le> c \<and> c \<le> 13) \<or> (28 \<le> c \<and> c \<le> 32) \<or> c = 133 \<or> c = 160 \<or> c = 5760 \<or>
     (8192 \<le> c \<and> c \<le> 8202) \<or> c = 8232 \<or> c = 8233 \<or> c = 8239 \<or> c = 8287 \<or> c = 12288"

text \<open>\<^verbatim>\<open>s.strip()\<close>: leading and trailing whitespace removed.\<close>

definition strip :: "pystr \<Rightarrow> pystr" where
  "strip s = rev (dropWhile isspace (rev (dropWhile isspace s)))"

text \<open>\<^verbatim>\<open>sep.join(xs)\<close>.\<close>

fun str_join :: "pystr \<Rightarrow> pystr list \<Rightarrow> pystr" where
  "str_join sep [] = []"
| "str_join sep [x] = x"
| "str_join sep (x # y # ys) = x @ sep @ str_join sep (y # ys)"

text \<open>\<^verbatim>\<open>sub in s\<close> on strings: \<open>sub\<close> occurs at some position of \<open>s\<close>.\<close>

fun str_contains :: "pystr \<Rightarrow> pystr \<Rightarrow> bool" where
  "str_contains sub [] = (sub = [])"
| "str_contains sub (c # cs) = (prefix sub (c # cs) \<or> str_contains sub cs)"

text \<open>
  \<^verbatim>\<open>s.replace(old, new)\<close>: the non-overlapping occurrences of \<open>old\<close>, found from the
  left, are replaced by \<open>new\<close>.  For an empty \<open>old\<close> Python inserts \<open>new\<close> before every
  character and at the end.
\<close>

function str_replace :: "pystr \<Rightarrow> pystr \<Rightarrow> pystr \<Rightarrow> pystr" where
  "str_replace old new [] = (if old = [] then new else [])"
| "str_replace old new (c # cs) =
     (if old = [] then new @ c # str_replace old new cs
      else if prefix old (c # cs) then new @ str_replace old new (drop (length old) (c # cs))
      else c # str_replace old new cs)"
  by pat_completeness auto
termination
  by (relation "measure (\<lambda>(old, new, s). length s)") auto

text \<open>A dictionary with string keys and string values, in insertion order.\<close>

type_synonym pydict = "(pystr \<times> pystr) list"

text \<open>\<^verbatim>\<open>d.get(k, default)\<close>.\<close>

definition dict_get :: "pydict \<Rightarrow> pystr \<Rightarrow> pystr \<Rightarrow> pystr" where
  "dict_get d k dflt = (case map_of d k of Some v \<Rightarrow> v | None \<Rightarrow> dflt)"

section \<open>doctor\_agent.py\<close>

subsection \<open>\<^verbatim>\<open>_shorten_reply\<close>\<close>

text \<open>
  The regular expression \<^verbatim>\<open>(?<=[.!?]) +\<close> matches a maximal run of one or more space
  characters (code point 32) that is preceded by \<^verbatim>\<open>.\<close> (46), \<^verbatim>\<open>!\<close> (33) or \<^verbatim>\<open>?\<close> (63).
  \<open>find_match\<close> is the leftmost match in a string: the text before the match and the
  text after it.
\<close>

definition terminal :: "uchar \<Rightarrow> bool" where
  "terminal c \<longleftrightarrow> c = 46 \<or> c = 33 \<or> c = 63"

fun find_match :: "pystr \<Rightarrow> (pystr \<times> pystr) option" where
  "find_match (a # b # cs) =
     (if terminal a \<and> b = 32 then Some ([a], dropWhile (\<lambda>x. x = 32) cs)
      else map_option (\<lambda>(pre, post). (a # pre, post)) (find_match (b # cs)))"
| "find_match [a] = None"
| "find_match [] = None"

lemma find_match_shorter:
  "find_match s = Some (pre, post) \<Longrightarrow> length post < length s"
proof (induction s arbitrary: pre post rule: find_match.induct)
  case (1 a b cs)
  then show ?case
    by (auto split: if_splits simp: less_Suc_eq_le le_SucI
        intro: le_trans[OF length_dropWhile_le])
qed simp_all

text \<open>
  \<^verbatim>\<open>re.split(r'(?<=[.!?]) +', s)\<close>: the pieces of \<open>s\<close> between the matches.  After a
  match the search goes on behind it; the next character is no space, so the
  look-behind on the space before it cannot succeed there.
\<close>

function re_split :: "pystr \<Rightarrow> pystr list" where
  "re_split s =
     (case find_match s of None \<Rightarrow> [s] | Some (pre, post) \<Rightarrow> pre # re_split post)"
  by pat_completeness auto
termination
  by (relation "measure length") (auto dest: find_match_shorter)

declare re_split.simps [simp del]

definition shorten_reply :: "pystr \<Rightarrow> nat \<Rightarrow> pystr" where
  "shorten_reply text max_sentences =
     (if text = [] then []
      else let sentences = re_split (strip text)
           in str_join (ustr '' '') (take max_sentences sentences))"

subsection \<open>The shaping lines of \<^verbatim>\<open>doctor_reply\<close>\<close>

definition END_CONVO :: pystr where
  "END_CONVO = ustr ''<END_CONVO>''"

text \<open>Lines 82 to 88: truncate, look for the marker, remove it and strip.\<close>

definition shape_reply :: "pystr \<Rightarrow> pystr \<times> bool" where
  "shape_reply raw_reply =
     (let reply = shorten_reply raw_reply 4;
          end_convo = str_contains END_CONVO reply;
          reply = strip (str_replace END_CONVO [] reply)
      in (reply, end_convo))"

subsection \<open>\<^verbatim>\<open>build_messages\<close>\<close>

definition SYSTEM_PROMPT :: pystr where
  "SYSTEM_PROMPT =
     ustr ''You are a compassionate general practice physician.'' @ [10] @
     ustr ''Your replies must be short, clear, and focused '' @ [8212] @
       ustr '' no more than 3'' @ [8211] @ ustr ''4 sentences.'' @ [10] @
     ustr ''Ask open-ended questions first, then clarifying questions.'' @ [10] @
     ustr ''Use empathetic, non-alarming language. Avoid jargon or explain it simply.'' @ [10] @
     ustr ''Do not give a definitive diagnosis '' @ [8212] @
       ustr '' focus on understanding symptoms, severity, timing, and red flags.'' @ [10] @
     ustr ''When provided a triage_context, deliver it clearly and explain next steps.'' @ [10] @
     ustr ''Avoid unnecessary repetition or filler words.'' @ [10] @
     ustr ''If you believe the consultation is complete, end your response with the token <END_CONVO>.'' @ [10]"

text \<open>\<^verbatim>\<open>{"role": r, "content": c}\<close>.\<close>

definition mk_message :: "pystr \<Rightarrow> pystr \<Rightarrow> pydict" where
  "mk_message r c = [(ustr ''role'', r), (ustr ''content'', c)]"

text \<open>
  \<^verbatim>\<open>m.get("content") or m.get("message") or ""\<close>: the first of the two values that is
  present and not empty, else the empty string.
\<close>

definition message_content :: "pydict \<Rightarrow> pystr" where
  "message_content m =
     (let a = map_of m (ustr ''content''); b = map_of m (ustr ''message'')
      in if a \<noteq> None \<and> a \<noteq> Some [] then dict_get m (ustr ''content'') []
         else if b \<noteq> None \<and> b \<noteq> Some [] then dict_get m (ustr ''message'') []
         else [])"

text \<open>The loop of lines 29 to 40, with the list \<open>messages\<close> built so far.\<close>

fun build_loop :: "pydict list \<Rightarrow> pydict list \<Rightarrow> pydict list" where
  "build_loop messages [] = messages"
| "build_loop messages (m # ms) =
     (let role = dict_get m (ustr ''role'') (ustr ''user'');
          content = message_content m
      in if content = [] then build_loop messages ms
         else if role = ustr ''user'' \<or> role = ustr ''patient''
           then build_loop (messages @ [mk_message (ustr ''user'') content]) ms
         else if role = ustr ''assistant'' \<or> role = ustr ''doctor''
           then build_loop (messages @ [mk_message (ustr ''assistant'') content]) ms
         else build_loop messages ms)"

definition build_messages :: "pydict list \<Rightarrow> pystr option \<Rightarrow> pydict list" where
  "build_messages message_history triage_context =
     (let messages = build_loop [mk_message (ustr ''system'') SYSTEM_PROMPT] message_history
      in case triage_context of
           None \<Rightarrow> messages
         | Some tc \<Rightarrow>
             if tc = [] then messages
             else messages @ [mk_message (ustr ''system'') (ustr ''Triage context: '' @ tc)])"

subsection \<open>\<^verbatim>\<open>doctor_reply\<close>\<close>

text \<open>
  The exceptions of the model.  \<^verbatim>\<open>ollama.ResponseError\<close> carries its text (\<^verbatim>\<open>str(e)\<close>);
  every other exception is an \<open>Exception\<close> or the \<open>KeyError\<close> of a missing key.  All of
  them are caught by \<^verbatim>\<open>except Exception\<close>.
\<close>

datatype exn = ResponseError pystr | KeyError pystr | Exception pystr

text \<open>
  The backend call \<^verbatim>\<open>ollama.chat(model, messages, options)\<close> is a parameter: given the
  messages it either raises or returns a response, of which the code reads
  \<^verbatim>\<open>response.get('message', {})\<close>: \<open>None\<close> when the key is missing, else the inner
  dictionary.
\<close>

type_synonym ollama_chat = "pydict list \<Rightarrow> exn + pydict option"

definition EMPTY_RESPONSE_REPLY :: pystr where
  "EMPTY_RESPONSE_REPLY =
     ustr ''I'' @ [39] @ ustr ''m sorry, I didn'' @ [39] @
     ustr ''t receive a proper response. Could you rephrase your question?''"

definition MEMORY_REPLY :: pystr where
  "MEMORY_REPLY = ustr ''Mistral requires more RAM. Close other applications and try again.''"

definition RESPONSE_ERROR_REPLY :: pystr where
  "RESPONSE_ERROR_REPLY = ustr ''The AI model encountered an error. Please try again.''"

definition UNEXPECTED_REPLY :: pystr where
  "UNEXPECTED_REPLY =
     ustr ''I'' @ [39] @ ustr ''m having trouble processing your request. Please try again.''"

text \<open>
  \<^verbatim>\<open>doctor_reply\<close> returns a pair in every branch and lets no exception out; the
  result is still a sum, so that the \<^verbatim>\<open>try\<close> around its call in \<^verbatim>\<open>chat\<close> has a branch.
\<close>

definition doctor_reply ::
  "ollama_chat \<Rightarrow> pydict list \<Rightarrow> pystr option \<Rightarrow> exn + pystr \<times> bool" where
  "doctor_reply backend message_history triage_context =
     (case backend (build_messages message_history triage_context) of
        Inr response \<Rightarrow>
          (let raw_reply = dict_get (case response of None \<Rightarrow> [] | Some d \<Rightarrow> d) (ustr ''content'') []
           in if raw_reply = [] then Inr (EMPTY_RESPONSE_REPLY, False)
              else Inr (shape_reply raw_reply))
      | Inl (ResponseError error_msg) \<Rightarrow>
          if str_contains (ustr ''system memory'') error_msg then Inr (MEMORY_REPLY, False)
          else Inr (RESPONSE_ERROR_REPLY, False)
      | Inl _ \<Rightarrow> Inr (UNEXPECTED_REPLY, False))"

section \<open>main.py: the triage display table\<close>

definition triage_display :: "(pystr \<times> pydict) list" where
  "triage_display =
   [(ustr ''Emergency'',
       [(ustr ''color'', ustr ''#e63946''),
        (ustr ''status'', [128308] @ ustr '' Emergency '' @ [8212] @ ustr '' Immediate care required!'')]),
    (ustr ''Urgent'',
       [(ustr ''color'', ustr ''#ff8800''),
        (ustr ''status'', [128992] @ ustr '' Urgent '' @ [8212] @ ustr '' Needs prompt medical attention.'')]),
    (ustr ''Routine'',
       [(ustr ''color'', ustr ''#2a9d8f''),
        (ustr ''status'', [128994] @ ustr '' Routine '' @ [8212] @ ustr '' No red flags; symptoms appear non-urgent.'')]),
    (ustr ''Normal'',
       [(ustr ''color'', ustr ''#2a9d8f''),
        (ustr ''status'', [128994] @ ustr '' Normal '' @ [8212] @ ustr '' Stable, no emergency detected.'')])]"

text \<open>
  Lines 237 and 238: \<^verbatim>\<open>triage_display.get(level, {}).get("color", "#2a9d8f")\<close> and the
  same for \<^verbatim>\<open>"status"\<close> with the default \<^verbatim>\<open>"\<dots> Routine condition"\<close>.  The result is
  the pair of color and status.
\<close>

definition present :: "pystr \<Rightarrow> pystr \<times> pystr" where
  "present level =
     (let entry = (case map_of triage_display level of Some d \<Rightarrow> d | None \<Rightarrow> [])
      in (dict_get entry (ustr ''color'') (ustr ''#2a9d8f''),
          dict_get entry (ustr ''status'') ([128994] @ ustr '' Routine condition'')))"

text \<open>The four triage levels.\<close>

definition levels :: "pystr set" where
  "levels = {ustr ''Emergency'', ustr ''Urgent'', ustr ''Routine'', ustr ''Normal''}"

section \<open>main.py: the chat route\<close>

text \<open>The request body \<^verbatim>\<open>SimpleChatRequest\<close>; \<^verbatim>\<open>session_id\<close> defaults to \<^verbatim>\<open>None\<close>.\<close>

record request =
  message :: pystr
  session_id :: "pystr option"

text \<open>The two module-level variables \<^verbatim>\<open>SESSIONS\<close> and \<^verbatim>\<open>message_logs\<close>.\<close>

record state =
  SESSIONS :: "pystr \<rightharpoonup> pydict list"
  message_logs :: "pydict list"

text \<open>The dictionary \<^verbatim>\<open>triage_info\<close> and the returned dictionary.\<close>

type_synonym structured = "(pystr \<times> pystr list) list"

record triage_info =
  t_level :: pystr
  t_reason :: pystr
  t_color :: pystr
  t_status :: pystr
  t_severity_flag :: bool

record response =
  success :: bool
  response_text :: pystr
  triage :: triage_info
  structured_data :: structured

text \<open>
  The dictionary handed to \<^verbatim>\<open>log_session\<close>; its \<^verbatim>\<open>ts\<close> entry is a floating-point clock
  value and is left out.
\<close>

record log_entry =
  log_turns :: "pydict list"
  log_structured :: structured
  log_triage :: triage_info

text \<open>
  The modules \<^verbatim>\<open>symptom_extractor\<close>, \<^verbatim>\<open>triage_engine\<close>, \<^verbatim>\<open>guideline_verifier\<close> and
  \<^verbatim>\<open>utils\<close> and the clock are parameters of the route: each call either raises
  (\<open>Inl\<close>) or returns.  \<open>time_now\<close> is \<^verbatim>\<open>int(time.time())\<close>.  The rules of the
  guideline verifier have an unknown type; the route only ever passes the empty list.
\<close>

typedecl guideline_rule

record env =
  time_now :: int
  ollama :: ollama_chat
  extract_structured :: "pystr \<Rightarrow> exn + structured"
  evaluate_triage :: "structured \<Rightarrow> exn + pydict"
  verify :: "pydict \<Rightarrow> guideline_rule list \<Rightarrow> exn + pydict"
  log_session :: "pystr \<Rightarrow> log_entry \<Rightarrow> exn option"

text \<open>\<^verbatim>\<open>str(i)\<close> of an integer, for the f-string of line 182.\<close>

fun digits :: "nat \<Rightarrow> pystr" where
  "digits n = (if n < 10 then [48 + n] else digits (n div 10) @ [48 + n mod 10])"

declare digits.simps [simp del]

definition str_int :: "int \<Rightarrow> pystr" where
  "str_int i = (if i < 0 then 45 # digits (nat (- i)) else digits (nat i))"

text \<open>Line 182: \<^verbatim>\<open>req.session_id or f"session-{int(time.time())}"\<close>.\<close>

definition resolve_sid :: "env \<Rightarrow> request \<Rightarrow> pystr" where
  "resolve_sid E req =
     (case session_id req of
        None \<Rightarrow> ustr ''session-'' @ str_int (time_now E)
      | Some s \<Rightarrow> if s = [] then ustr ''session-'' @ str_int (time_now E) else s)"

text \<open>
  \<^verbatim>\<open>SESSIONS[sid]\<close> and \<^verbatim>\<open>SESSIONS[sid].append(m)\<close>.  The route reads the list only
  after line 185 has made sure that the key exists, so the \<open>None\<close> case is never
  reached from there.
\<close>

definition session_turns :: "(pystr \<rightharpoonup> pydict list) \<Rightarrow> pystr \<Rightarrow> pydict list" where
  "session_turns S sid = (case S sid of Some ms \<Rightarrow> ms | None \<Rightarrow> [])"

definition session_append ::
  "(pystr \<rightharpoonup> pydict list) \<Rightarrow> pystr \<Rightarrow> pydict \<Rightarrow> (pystr \<rightharpoonup> pydict list)" where
  "session_append S sid m = S(sid \<mapsto> session_turns S sid @ [m])"

definition CHAT_FALLBACK_REPLY :: pystr where
  "CHAT_FALLBACK_REPLY =
     ustr ''I'' @ [39] @
     ustr ''m here to help with your health concerns. Can you tell me more about your symptoms?''"

text \<open>
  Lines 184 to 207: the session is created and the log cleared when the id is new, the
  patient message is stored, the doctor reply is obtained and stored.  The result is
  the reply, the flag and the state.
\<close>

definition chat_turn :: "env \<Rightarrow> request \<Rightarrow> state \<Rightarrow> pystr \<times> bool \<times> state" where
  "chat_turn E req st =
     (let sid = resolve_sid E req;
          st = (if SESSIONS st sid = None
                then st\<lparr>SESSIONS := (SESSIONS st)(sid \<mapsto> []), message_logs := []\<rparr>
                else st);
          user_message = [(ustr ''role'', ustr ''patient''), (ustr ''message'', message req)];
          st = st\<lparr>SESSIONS := session_append (SESSIONS st) sid (mk_message (ustr ''user'') (message req))\<rparr>;
          st = st\<lparr>message_logs := message_logs st @ [user_message]\<rparr>;
          (reply, severity_flag) =
             (case doctor_reply (ollama E) (session_turns (SESSIONS st) sid) None of
                Inr result \<Rightarrow> result
              | Inl e \<Rightarrow> (CHAT_FALLBACK_REPLY, False));
          st = st\<lparr>SESSIONS := session_append (SESSIONS st) sid (mk_message (ustr ''assistant'') reply)\<rparr>;
          st = st\<lparr>message_logs := message_logs st @ [[(ustr ''role'', ustr ''doctor''), (ustr ''message'', reply)]]\<rparr>
      in (reply, severity_flag, st))"

text \<open>
  Line 210: one line \<^verbatim>\<open>f"{m['role']}: {m.get('content', '')}"\<close> for each turn, joined by
  newlines.  \<^verbatim>\<open>m['role']\<close> raises \<^verbatim>\<open>KeyError\<close> when the key is missing.
\<close>

fun conv_lines :: "pydict list \<Rightarrow> exn + pystr list" where
  "conv_lines [] = Inr []"
| "conv_lines (m # ms) =
     (case map_of m (ustr ''role'') of
        None \<Rightarrow> Inl (KeyError (ustr ''role''))
      | Some r \<Rightarrow>
          (case conv_lines ms of
             Inl e \<Rightarrow> Inl e
           | Inr ls \<Rightarrow> Inr ((r @ ustr '': '' @ dict_get m (ustr ''content'') []) # ls)))"

definition conv_text :: "pydict list \<Rightarrow> exn + pystr" where
  "conv_text ms = (case conv_lines ms of Inl e \<Rightarrow> Inl e | Inr ls \<Rightarrow> Inr (str_join [10] ls))"

definition DEFAULT_REASON :: pystr where
  "DEFAULT_REASON = ustr ''No red flags found; symptoms appear non-urgent.''"

text \<open>
  Lines 212 to 256, for the transcript \<open>conv\<close>: extraction and evaluation with their
  handlers, the verifier and the logger without one, the display data and the
  response.  An exception that no handler catches ends the route with \<open>Inl\<close>.
\<close>

definition chat_triage ::
  "env \<Rightarrow> pystr \<Rightarrow> pystr \<Rightarrow> bool \<Rightarrow> state \<Rightarrow> pystr \<Rightarrow> exn + response" where
  "chat_triage E sid reply severity_flag st conv =
     (let structured = (case extract_structured E conv of Inr s \<Rightarrow> s | Inl e \<Rightarrow> []);
          raw_triage =
            (case evaluate_triage E structured of
               Inr t \<Rightarrow> t
             | Inl e \<Rightarrow> [(ustr ''level'', ustr ''Routine''), (ustr ''reason'', DEFAULT_REASON)])
      in case verify E raw_triage [] of
           Inl e \<Rightarrow> Inl e
         | Inr verified \<Rightarrow>
            (let level = dict_get verified (ustr ''level'') (ustr ''Routine'');
                 reason = dict_get verified (ustr ''reason'') DEFAULT_REASON;
                 info = \<lparr>t_level = level, t_reason = reason,
                         t_color = fst (present level), t_status = snd (present level),
                         t_severity_flag = severity_flag\<rparr>
             in case log_session E sid
                       \<lparr>log_turns = session_turns (SESSIONS st) sid,
                        log_structured = structured, log_triage = info\<rparr> of
                  Some e \<Rightarrow> Inl e
                | None \<Rightarrow>
                    Inr \<lparr>success = True, response_text = reply, triage = info,
                         structured_data = structured\<rparr>))"

text \<open>
  The route: the result and the two global variables after it.  When an exception
  ends the route, the changes of lines 184 to 207 stay.  The model is of one request
  that runs from its first line to its last; what another request does to the two
  variables while this one waits for the thread pool is not part of it.
\<close>

definition chat :: "env \<Rightarrow> request \<Rightarrow> state \<Rightarrow> (exn + response) \<times> state" where
  "chat E req st =
     (let sid = resolve_sid E req;
          (reply, severity_flag, st) = chat_turn E req st
      in case conv_text (session_turns (SESSIONS st) sid) of
           Inl e \<Rightarrow> (Inl e, st)
         | Inr conv \<Rightarrow> (chat_triage E sid reply severity_flag st conv, st))"

text \<open>The transcript that line 213 hands to \<^verbatim>\<open>extract_structured\<close>.\<close>

definition chat_transcript :: "env \<Rightarrow> request \<Rightarrow> state \<Rightarrow> exn + pystr" where
  "chat_transcript E req st =
     (let sid = resolve_sid E req;
          (reply, severity_flag, st) = chat_turn E req st
      in conv_text (session_turns (SESSIONS st) sid))"

section \<open>Predicates and inputs of the statements\<close>

text \<open>
  A turn as the route stores it has a role; the roles it stores are \<^verbatim>\<open>user\<close> and
  \<^verbatim>\<open>assistant\<close>.  \<open>render\<close> is the line of the transcript for one turn.
  \<open>valid_verdict\<close> is what the route reads from a verdict: a level among the four
  and a reason that is not empty, with the defaults of lines 225 and 226.
  The environments, requests and states below are the concrete inputs at which the
  theorems are instantiated: \<open>env_down\<close> is the total backend failure (inference,
  extraction and evaluation all raise) with a verifier that returns its verdict.
\<close>

definition has_role :: "pydict \<Rightarrow> bool" where
  "has_role m \<longleftrightarrow> map_of m (ustr ''role'') \<noteq> None"

definition stored_turn :: "pydict \<Rightarrow> bool" where
  "stored_turn m \<longleftrightarrow>
     m = mk_message (ustr ''user'') (dict_get m (ustr ''content'') []) \<or>
     m = mk_message (ustr ''assistant'') (dict_get m (ustr ''content'') [])"

definition render :: "pydict \<Rightarrow> pystr" where
  "render m = dict_get m (ustr ''role'') [] @ ustr '': '' @ dict_get m (ustr ''content'') []"


definition env_down :: env where
  "env_down =
     \<lparr>time_now = 1700000000,
      ollama = (\<lambda>messages. Inl (Exception [])),
      extract_structured = (\<lambda>conv. Inl (Exception [])),
      evaluate_triage = (\<lambda>s. Inl (Exception [])),
      verify = (\<lambda>v rules. Inr v),
      log_session = (\<lambda>sid entry. None)\<rparr>"

definition env_verify_fails :: env where
  "env_verify_fails = env_down\<lparr>verify := (\<lambda>v rules. Inl (Exception []))\<rparr>"



definition req_hi :: request where
  "req_hi = \<lparr>message = ustr ''hi'', session_id = Some (ustr ''a'')\<rparr>"

definition st_empty :: state where
  "st_empty = \<lparr>SESSIONS = Map.empty, message_logs = []\<rparr>"

definition st_other :: state where
  "st_other =
     \<lparr>SESSIONS = [ustr ''b'' \<mapsto> [mk_message (ustr ''user'') (ustr ''cough''),
                                    mk_message (ustr ''assistant'') (ustr ''Since when?'')]],
      message_logs = [[(ustr ''role'', ustr ''patient''), (ustr ''message'', ustr ''cough'')],
                      [(ustr ''role'', ustr ''doctor''), (ustr ''message'', ustr ''Since when?'')]]\<rparr>"

text \<open>
  The inference call has failed when it raises or when the response has no content.
  Two failing backends, and a history as the route stores it whose second turn is a
  reply with an empty text.
\<close>

definition inference_failed :: "exn + pydict option \<Rightarrow> bool" where
  "inference_failed outcome \<longleftrightarrow>
     (case outcome of
        Inl e \<Rightarrow> True
      | Inr response \<Rightarrow>
          dict_get (case response of None \<Rightarrow> [] | Some d \<Rightarrow> d) (ustr ''content'') [] = [])"

definition backend_empty :: ollama_chat where
  "backend_empty = (\<lambda>messages. Inr None)"

definition backend_error :: ollama_chat where
  "backend_error = (\<lambda>messages. Inl (ResponseError (ustr ''model not found'')))"

definition history_with_empty_turn :: "pydict list" where
  "history_with_empty_turn =
     [mk_message (ustr ''user'') (ustr ''hi''),
      mk_message (ustr ''assistant'') [],
      mk_message (ustr ''user'') (ustr ''ok'')]"

text \<open>
  Sentences.  A text has a boundary where a terminal character is followed by a space.
  \<open>weave s rest\<close> is the text made of the sentence \<open>s\<close> and then, for each pair of
  \<open>rest\<close>, a gap of that many spaces and a further sentence.  \<open>sentences_ok\<close> says that
  this is a division into sentences: no sentence has a boundary inside, every gap has
  at least one space and follows a sentence that ends in a terminal character, and no
  sentence after a gap begins with a space.  A wide gap is a terminal character
  followed by two spaces.  A text is trimmed when it neither begins nor ends with
  whitespace.
\<close>

fun has_boundary :: "pystr \<Rightarrow> bool" where
  "has_boundary (a # b # cs) = ((terminal a \<and> b = 32) \<or> has_boundary (b # cs))"
| "has_boundary [a] = False"
| "has_boundary [] = False"

definition starts_with_space :: "pystr \<Rightarrow> bool" where
  "starts_with_space t = (case t of [] \<Rightarrow> False | c # cs \<Rightarrow> c = 32)"

fun weave :: "pystr \<Rightarrow> (nat \<times> pystr) list \<Rightarrow> pystr" where
  "weave s [] = s"
| "weave s ((n, t) # rest) = s @ replicate n 32 @ weave t rest"

fun sentences_ok :: "pystr \<Rightarrow> (nat \<times> pystr) list \<Rightarrow> bool" where
  "sentences_ok s [] = (\<not> has_boundary s)"
| "sentences_ok s ((n, t) # rest) =
     (\<not> has_boundary s \<and> s \<noteq> [] \<and> terminal (last s) \<and> 0 < n \<and>
      \<not> starts_with_space t \<and> sentences_ok t rest)"

fun has_wide_gap :: "pystr \<Rightarrow> bool" where
  "has_wide_gap (a # b # c # cs) = ((terminal a \<and> b = 32 \<and> c = 32) \<or> has_wide_gap (b # c # cs))"
| "has_wide_gap [a, b] = False"
| "has_wide_gap [a] = False"
| "has_wide_gap [] = False"

definition trimmed :: "pystr \<Rightarrow> bool" where
  "trimmed s \<longleftrightarrow> (case s of [] \<Rightarrow> True | c # cs \<Rightarrow> \<not> isspace c \<and> \<not> isspace (last s))"

definition six_lines :: pystr where
  "six_lines = ustr ''A.'' @ [10] @ ustr ''B.'' @ [10] @ ustr ''C.'' @ [10] @
               ustr ''D.'' @ [10] @ ustr ''E.'' @ [10] @ ustr ''F.''"

definition six_sentences :: pystr where
  "six_sentences = ustr ''  One. Two!  Three? Four. Five. Six. ''"

definition six_rest :: "(nat \<times> pystr) list" where
  "six_rest = [(1, ustr ''Two!''), (2, ustr ''Three?''), (1, ustr ''Four.''),
               (1, ustr ''Five.''), (1, ustr ''Six.'')]"

section \<open>Lemmas about the route\<close>

subsection \<open>The state after a turn\<close>

lemma chat_turn_sessions:
  "SESSIONS (snd (snd (chat_turn E req st))) =
     (SESSIONS st)(resolve_sid E req \<mapsto>
        session_turns (SESSIONS st) (resolve_sid E req) @
          [mk_message (ustr ''user'') (message req),
           mk_message (ustr ''assistant'') (fst (chat_turn E req st))])"
  by (simp add: chat_turn_def Let_def session_append_def session_turns_def
      split: prod.splits sum.splits)

lemma chat_turn_logs:
  "message_logs (snd (snd (chat_turn E req st))) =
     (if SESSIONS st (resolve_sid E req) = None then [] else message_logs st) @
       [[(ustr ''role'', ustr ''patient''), (ustr ''message'', message req)],
        [(ustr ''role'', ustr ''doctor''), (ustr ''message'', fst (chat_turn E req st))]]"
  by (simp add: chat_turn_def Let_def session_append_def session_turns_def
      split: prod.splits sum.splits)

lemma chat_turn_reply:
  "fst (chat_turn E req st) =
     fst (case doctor_reply (ollama E)
                 (session_turns (SESSIONS st) (resolve_sid E req) @
                    [mk_message (ustr ''user'') (message req)]) None of
            Inr result \<Rightarrow> result
          | Inl e \<Rightarrow> (CHAT_FALLBACK_REPLY, False))"
  by (simp add: chat_turn_def Let_def session_append_def session_turns_def
      split: prod.splits sum.splits)

lemma chat_state: "snd (chat E req st) = snd (snd (chat_turn E req st))"
  by (simp add: chat_def Let_def split: prod.splits sum.splits)

lemma session_turns_after:
  "session_turns (SESSIONS (snd (snd (chat_turn E req st)))) (resolve_sid E req) =
     session_turns (SESSIONS st) (resolve_sid E req) @
       [mk_message (ustr ''user'') (message req),
        mk_message (ustr ''assistant'') (fst (chat_turn E req st))]"
  by (simp add: chat_turn_sessions session_turns_def)

subsection \<open>The transcript\<close>

lemma conv_lines_ok: "list_all has_role ms \<Longrightarrow> conv_lines ms = Inr (map render ms)"
  by (induction ms) (auto simp: has_role_def render_def dict_get_def)

lemma conv_text_ok:
  "list_all has_role ms \<Longrightarrow> conv_text ms = Inr (str_join [10] (map render ms))"
  by (simp add: conv_text_def conv_lines_ok)

lemma has_role_mk_message: "has_role (mk_message r c)"
  by (simp add: has_role_def mk_message_def)

lemma render_mk_message: "render (mk_message r c) = r @ ustr '': '' @ c"
  by (simp add: render_def mk_message_def dict_get_def ustr_def)

lemma stored_turn_cases:
  assumes "stored_turn m"
  obtains c where "m = mk_message (ustr ''user'') c"
        | c where "m = mk_message (ustr ''assistant'') c"
  using assms unfolding stored_turn_def by blast

lemma stored_turn_mk:
  "stored_turn (mk_message (ustr ''user'') c)" "stored_turn (mk_message (ustr ''assistant'') c)"
  by (simp_all add: stored_turn_def mk_message_def dict_get_def ustr_def)

lemma stored_turn_has_role: "stored_turn m \<Longrightarrow> has_role m"
  by (erule stored_turn_cases) (simp_all add: has_role_mk_message)

lemma stored_turn_role:
  "stored_turn m \<Longrightarrow> dict_get m (ustr ''role'') [] \<in> {ustr ''user'', ustr ''assistant''}"
  by (erule stored_turn_cases) (simp_all add: mk_message_def dict_get_def)

text \<open>With a role in every stored turn the route reaches line 212.\<close>

lemma chat_reaches_triage:
  assumes "list_all has_role (session_turns (SESSIONS st) (resolve_sid E req))"
  shows "fst (chat E req st) =
           chat_triage E (resolve_sid E req) (fst (chat_turn E req st))
             (fst (snd (chat_turn E req st))) (snd (snd (chat_turn E req st)))
             (str_join [10] (map render
                (session_turns (SESSIONS st) (resolve_sid E req) @
                   [mk_message (ustr ''user'') (message req),
                    mk_message (ustr ''assistant'') (fst (chat_turn E req st))])))"
proof -
  obtain reply flag st' where ct: "chat_turn E req st = (reply, flag, st')"
    by (cases "chat_turn E req st") auto
  have turns: "session_turns (SESSIONS st') (resolve_sid E req) =
      session_turns (SESSIONS st) (resolve_sid E req) @
        [mk_message (ustr ''user'') (message req), mk_message (ustr ''assistant'') reply]"
    using session_turns_after [of E req st] by (simp add: ct)
  have "conv_text (session_turns (SESSIONS st') (resolve_sid E req)) =
      Inr (str_join [10] (map render (session_turns (SESSIONS st') (resolve_sid E req))))"
    by (rule conv_text_ok) (simp add: turns assms has_role_mk_message)
  then show ?thesis
    by (simp add: chat_def ct Let_def turns)
qed

lemma chat_transcript_ok:
  assumes "list_all has_role (session_turns (SESSIONS st) (resolve_sid E req))"
  shows "chat_transcript E req st =
           Inr (str_join [10] (map render
                (session_turns (SESSIONS st) (resolve_sid E req) @
                   [mk_message (ustr ''user'') (message req),
                    mk_message (ustr ''assistant'') (fst (chat_turn E req st))])))"
proof -
  obtain reply flag st' where ct: "chat_turn E req st = (reply, flag, st')"
    by (cases "chat_turn E req st") auto
  have turns: "session_turns (SESSIONS st') (resolve_sid E req) =
      session_turns (SESSIONS st) (resolve_sid E req) @
        [mk_message (ustr ''user'') (message req), mk_message (ustr ''assistant'') reply]"
    using session_turns_after [of E req st] by (simp add: ct)
  have "conv_text (session_turns (SESSIONS st') (resolve_sid E req)) =
      Inr (str_join [10] (map render (session_turns (SESSIONS st') (resolve_sid E req))))"
    by (rule conv_text_ok) (simp add: turns assms has_role_mk_message)
  then show ?thesis
    by (simp add: chat_transcript_def ct Let_def turns)
qed

subsection \<open>Concrete inputs\<close>

lemma resolve_sid_req_hi: "resolve_sid E req_hi = ustr ''a''"
  by (simp add: resolve_sid_def req_hi_def ustr_def)

lemma chat_turn_env_down: "fst (chat_turn env_down req st) = UNEXPECTED_REPLY"
  by (simp add: chat_turn_reply) (simp add: env_down_def doctor_reply_def)

lemma chat_turn_env_verify_fails: "fst (chat_turn env_verify_fails req st) = UNEXPECTED_REPLY"
  by (simp add: chat_turn_reply) (simp add: env_verify_fails_def env_down_def doctor_reply_def)

lemma st_empty_turns: "session_turns (SESSIONS st_empty) sid = []"
  by (simp add: session_turns_def st_empty_def)

lemma present_nonempty: "fst (present level) \<noteq> [] \<and> snd (present level) \<noteq> []"
proof (cases "level \<in> levels")
  case True
  then show ?thesis
    by (auto simp: levels_def present_def triage_display_def dict_get_def ustr_def)
next
  case False
  then show ?thesis
    by (simp add: levels_def present_def triage_display_def dict_get_def ustr_def)
qed


subsection \<open>The reply generator and the messages\<close>

lemma fallback_replies_nonempty:
  "EMPTY_RESPONSE_REPLY \<noteq> []" "MEMORY_REPLY \<noteq> []" "RESPONSE_ERROR_REPLY \<noteq> []"
  "UNEXPECTED_REPLY \<noteq> []"
  by (simp_all add: EMPTY_RESPONSE_REPLY_def MEMORY_REPLY_def RESPONSE_ERROR_REPLY_def
      UNEXPECTED_REPLY_def ustr_def)

lemma message_content_mk: "message_content (mk_message r c) = c"
  by (simp add: message_content_def mk_message_def dict_get_def ustr_def)

lemma role_mk: "dict_get (mk_message r c) (ustr ''role'') d = r"
  by (simp add: mk_message_def dict_get_def)

lemma content_mk: "dict_get (mk_message r c) (ustr ''content'') d = c"
  by (simp add: mk_message_def dict_get_def ustr_def)

lemma build_loop_stored:
  "list_all stored_turn hist \<Longrightarrow>
   build_loop messages hist =
     messages @ filter (\<lambda>m. dict_get m (ustr ''content'') [] \<noteq> []) hist"
proof (induction hist arbitrary: messages)
  case Nil
  then show ?case by simp
next
  case (Cons m ms)
  from Cons.prems have "stored_turn m" by simp
  then show ?case
  proof (cases rule: stored_turn_cases)
    case (1 c)
    with Cons show ?thesis
      by (simp add: message_content_mk role_mk content_mk Let_def)
  next
    case (2 c)
    have "ustr ''assistant'' \<noteq> ustr ''user''" "ustr ''assistant'' \<noteq> ustr ''patient''"
      by (simp_all add: ustr_def)
    with 2 Cons show ?thesis
      by (simp add: message_content_mk role_mk content_mk Let_def)
  qed
qed

text \<open>The route keeps the stored turns in the form in which it stores them.\<close>

lemma stored_turns_initial: "list_all stored_turn (session_turns (SESSIONS st_empty) sid)"
  by (simp add: session_turns_def st_empty_def)

lemma stored_turns_preserved:
  assumes "\<forall>sid. list_all stored_turn (session_turns (SESSIONS st) sid)"
  shows "\<forall>sid. list_all stored_turn (session_turns (SESSIONS (snd (chat E req st))) sid)"
proof
  fix sid
  show "list_all stored_turn (session_turns (SESSIONS (snd (chat E req st))) sid)"
    using assms [rule_format, of sid] assms [rule_format, of "resolve_sid E req"]
    by (cases "sid = resolve_sid E req")
       (simp_all add: chat_state chat_turn_sessions session_turns_def stored_turn_mk)
qed

subsection \<open>Sentences, the marker and stripping\<close>

lemma dropWhile_spaces:
  "\<not> starts_with_space t \<Longrightarrow> dropWhile (\<lambda>x. x = 32) (replicate n 32 @ t) = t"
  by (induction n) (auto simp: starts_with_space_def split: list.splits)

lemma find_match_None: "find_match s = None \<longleftrightarrow> \<not> has_boundary s"
  by (induction s rule: find_match.induct) auto

lemma re_split_no_boundary: "\<not> has_boundary s \<Longrightarrow> re_split s = [s]"
  using find_match_None [of s] by (simp add: re_split.simps)

lemma find_match_sentence:
  assumes "\<not> has_boundary s" "s \<noteq> []" "terminal (last s)" "0 < n" "\<not> starts_with_space t"
  shows "find_match (s @ replicate n 32 @ t) = Some (s, t)"
  using assms
proof (induction s rule: has_boundary.induct)
  case (1 a b cs)
  then show ?case by auto
next
  case (2 a)
  then obtain k where "n = Suc k" by (cases n) auto
  with 2 show ?case by (simp add: dropWhile_spaces)
next
  case 3
  then show ?case by simp
qed

lemma weave_start:
  "sentences_ok t rest \<Longrightarrow> \<not> starts_with_space t \<Longrightarrow> \<not> starts_with_space (weave t rest)"
  by (cases rest) (auto simp: starts_with_space_def split: list.splits)

lemma re_split_weave: "sentences_ok s rest \<Longrightarrow> re_split (weave s rest) = s # map snd rest"
proof (induction s rest rule: weave.induct)
  case (1 s)
  then show ?case by (simp add: re_split_no_boundary)
next
  case (2 s n t rest)
  then have "find_match (s @ replicate n 32 @ weave t rest) = Some (s, weave t rest)"
    by (simp add: find_match_sentence weave_start)
  with 2 show ?case
    by (simp add: re_split.simps [of "s @ replicate n 32 @ weave t rest"])
qed

lemma last_dropWhile_keep: "dropWhile P xs \<noteq> [] \<Longrightarrow> last (dropWhile P xs) = last xs"
  by (induction xs) (auto split: if_splits)

lemma dropWhile_hd: "dropWhile P xs = y # ys \<Longrightarrow> \<not> P y"
  using hd_dropWhile [of P xs] by auto

lemma strip_trimmed: "trimmed (strip s)"
proof (cases "strip s")
  case Nil
  then show ?thesis by (simp add: trimmed_def)
next
  case (Cons c cs)
  define u where "u = dropWhile isspace s"
  define v where "v = dropWhile isspace (rev u)"
  have sv: "strip s = rev v" by (simp add: strip_def u_def v_def)
  with Cons have vne: "v \<noteq> []" by auto
  then obtain y ys where v: "v = y # ys" by (cases v) auto
  then have "\<not> isspace y" using dropWhile_hd [of isspace "rev u"] by (simp add: v_def)
  then have l: "\<not> isspace (last (strip s))" by (simp add: sv v)
  have une: "u \<noteq> []" using vne by (auto simp: v_def)
  then obtain z zs where u: "u = z # zs" by (cases u) auto
  then have z: "\<not> isspace z" using dropWhile_hd [of isspace s] by (simp add: u_def)
  have "last v = last (rev u)" using vne by (simp add: v_def last_dropWhile_keep)
  then have "hd (strip s) = z" by (simp add: sv hd_rev u last_rev)
  with Cons z l show ?thesis by (auto simp: trimmed_def split: if_splits)
qed

lemma trimmed_strip: "trimmed s \<Longrightarrow> strip s = s"
proof (cases s)
  case Nil
  then show ?thesis by (simp add: strip_def)
next
  case (Cons c cs)
  assume "trimmed s"
  with Cons have c: "\<not> isspace c" and l: "\<not> isspace (last s)" by (simp_all add: trimmed_def)
  have "dropWhile isspace s = s" using c Cons by simp
  moreover have "dropWhile isspace (rev s) = rev s"
    using l Cons by (cases "rev s") (auto simp: last_rev hd_rev [symmetric])
  ultimately show ?thesis by (simp add: strip_def)
qed

lemma strip_fixed_iff: "strip s = s \<longleftrightarrow> trimmed s"
  using strip_trimmed [of s] trimmed_strip [of s] by auto

lemma str_contains_iff: "str_contains sub s \<longleftrightarrow> (\<exists>pre post. s = pre @ sub @ post)"
proof (induction s)
  case Nil
  then show ?case by auto
next
  case (Cons c cs)
  show ?case
  proof
    assume "str_contains sub (c # cs)"
    then consider "prefix sub (c # cs)" | "str_contains sub cs" by auto
    then show "\<exists>pre post. c # cs = pre @ sub @ post"
    proof cases
      case 1
      then obtain post where "c # cs = sub @ post" by (auto simp: prefix_def)
      then have "c # cs = [] @ sub @ post" by simp
      then show ?thesis by blast
    next
      case 2
      with Cons obtain pre post where "cs = pre @ sub @ post" by auto
      then have "c # cs = (c # pre) @ sub @ post" by simp
      then show ?thesis by blast
    qed
  next
    assume "\<exists>pre post. c # cs = pre @ sub @ post"
    then obtain pre post where e: "c # cs = pre @ sub @ post" by auto
    show "str_contains sub (c # cs)"
    proof (cases pre)
      case Nil
      with e have "prefix sub (c # cs)" by (simp add: prefix_def)
      then show ?thesis by simp
    next
      case (Cons p ps)
      with e have "cs = ps @ sub @ post" by simp
      with Cons.IH have "str_contains sub cs" by blast
      then show ?thesis by simp
    qed
  qed
qed

lemma str_contains_prefix: "prefix sub s \<Longrightarrow> str_contains sub s"
  by (cases s) auto

lemma str_replace_absent:
  "old \<noteq> [] \<Longrightarrow> \<not> str_contains old s \<Longrightarrow> str_replace old new s = s"
  by (induction s) auto

lemma str_join_Cons: "ps \<noteq> [] \<Longrightarrow> str_join sep (p # ps) = p @ sep @ str_join sep ps"
  by (cases ps) auto

lemma str_replace_parts:
  assumes "old \<noteq> []"
  shows "\<exists>parts. parts \<noteq> [] \<and> s = str_join old parts \<and>
           (\<forall>p \<in> set parts. \<not> str_contains old p) \<and>
           str_replace old new s = str_join new parts"
  using assms
proof (induction old new s rule: str_replace.induct)
  case (1 old new)
  then have "[[]] \<noteq> [] \<and> [] = str_join old [[]] \<and>
      (\<forall>p \<in> set [[]]. \<not> str_contains old p) \<and>
      str_replace old new [] = str_join new [[]]"
    by simp
  then show ?case by blast
next
  case (2 old new c cs)
  show ?case
  proof (cases "prefix old (c # cs)")
    case True
    then have split: "c # cs = old @ drop (length old) (c # cs)"
      by (metis append_eq_conv_conj prefix_def)
    from "2.IH"(2) "2.prems" True obtain parts where p: "parts \<noteq> []"
      "drop (length old) (c # cs) = str_join old parts"
      "\<forall>p \<in> set parts. \<not> str_contains old p"
      "str_replace old new (drop (length old) (c # cs)) = str_join new parts"
      by auto
    have "c # cs = str_join old ([] # parts)"
      using split p(1,2) by (simp add: str_join_Cons)
    moreover have "\<forall>q \<in> set ([] # parts). \<not> str_contains old q"
      using p(3) "2.prems" by simp
    moreover have "str_replace old new (c # cs) = str_join new ([] # parts)"
      using True "2.prems" p(1,4) by (simp add: str_join_Cons)
    ultimately show ?thesis by blast
  next
    case False
    from "2.IH"(3) "2.prems" False obtain parts where p: "parts \<noteq> []"
      "cs = str_join old parts"
      "\<forall>p \<in> set parts. \<not> str_contains old p"
      "str_replace old new cs = str_join new parts"
      by auto
    then obtain q qs where q: "parts = q # qs" by (cases parts) auto
    have pre: "prefix (c # q) (c # cs)"
      using p(2) q by (cases qs) (auto simp: prefix_def)
    have "\<not> prefix old (c # q)"
      using False pre by (meson prefix_order.order_trans)
    then have nc: "\<not> str_contains old (c # q)"
      using p(3) q by simp
    have "c # cs = str_join old ((c # q) # qs)"
      using p(2) q by (cases qs) auto
    moreover have "\<forall>r \<in> set ((c # q) # qs). \<not> str_contains old r"
      using nc p(3) q by simp
    moreover have "str_replace old new (c # cs) = str_join new ((c # q) # qs)"
      using False "2.prems" p(4) q by (cases qs) auto
    ultimately show ?thesis by blast
  qed
qed

lemma str_join_empty_sep: "str_join [] parts = concat parts"
  by (induction "[] :: pystr" parts rule: str_join.induct) auto

lemma ustr_space: "ustr '' '' = [32]"
  by (simp add: ustr_def)

lemma END_CONVO_nonempty: "END_CONVO \<noteq> []"
  by (simp add: END_CONVO_def ustr_def)

lemma re_split_nonempty: "re_split s \<noteq> []"
  by (simp add: re_split.simps [of s] split: option.splits)

lemma has_wide_gap_Cons: "has_wide_gap cs \<Longrightarrow> has_wide_gap (x # cs)"
  by (induction cs rule: has_wide_gap.induct) auto

lemma takeWhile_spaces: "takeWhile (\<lambda>x. x = (32::nat)) cs = replicate (length (takeWhile (\<lambda>x. x = 32) cs)) 32"
  by (induction cs) auto

lemma dropWhile_no_space: "\<not> starts_with_space (dropWhile (\<lambda>x. x = 32) cs)"
  by (induction cs) (auto simp: starts_with_space_def)

lemma find_match_Some:
  "find_match s = Some (pre, post) \<Longrightarrow>
   \<exists>n. 0 < n \<and> s = pre @ replicate n 32 @ post \<and> \<not> starts_with_space post \<and>
       pre \<noteq> [] \<and> terminal (last pre) \<and> \<not> has_boundary pre"
proof (induction s arbitrary: pre rule: find_match.induct)
  case (1 a b cs)
  show ?case
  proof (cases "terminal a \<and> b = 32")
    case True
    with 1(2) have pre: "pre = [a]" and post: "post = dropWhile (\<lambda>x. x = 32) cs" by auto
    define k where "k = length (takeWhile (\<lambda>x. x = (32::nat)) cs)"
    have "cs = replicate k 32 @ post"
      using takeWhile_dropWhile_id [of "\<lambda>x. x = 32" cs] takeWhile_spaces [of cs]
      by (simp add: k_def post)
    then have "a # b # cs = pre @ replicate (Suc k) 32 @ post"
      using True pre by simp
    then show ?thesis
      using True pre post dropWhile_no_space [of cs] by (intro exI [of _ "Suc k"]) simp
  next
    case False
    with 1(2) obtain pre' where f: "find_match (b # cs) = Some (pre', post)" and pre: "pre = a # pre'"
      by auto
    from 1(1) [OF False f] obtain n where n: "0 < n" "b # cs = pre' @ replicate n 32 @ post"
      "\<not> starts_with_space post" "pre' \<noteq> []" "terminal (last pre')" "\<not> has_boundary pre'"
      by blast
    from n(2,4) obtain ps where ps: "pre' = b # ps" by (cases pre') auto
    have "\<not> has_boundary pre" using False n(6) by (simp add: pre ps)
    then show ?thesis
      using n pre by (intro exI [of _ n]) simp
  qed
qed simp_all

lemma sentences_exist: "\<exists>s rest. t = weave s rest \<and> sentences_ok s rest"
proof (induction t rule: re_split.induct)
  case (1 t)
  show ?case
  proof (cases "find_match t")
    case None
    then have "t = weave t [] \<and> sentences_ok t []"
      by (simp add: find_match_None)
    then show ?thesis by blast
  next
    case (Some pp)
    then obtain pre post where f: "find_match t = Some (pre, post)" by (cases pp) auto
    from find_match_Some [OF f] obtain n where n: "0 < n" "t = pre @ replicate n 32 @ post"
      "\<not> starts_with_space post" "pre \<noteq> []" "terminal (last pre)" "\<not> has_boundary pre"
      by blast
    from 1 [OF f refl] obtain s rest where sr: "post = weave s rest" "sentences_ok s rest"
      by blast
    have "\<not> starts_with_space s"
      using n(3) sr by (cases rest) (auto simp: starts_with_space_def split: list.splits)
    then have "t = weave pre ((n, s) # rest) \<and> sentences_ok pre ((n, s) # rest)"
      using n sr by simp
    then show ?thesis by blast
  qed
qed

lemma find_match_single_gap:
  "find_match s = Some (pre, post) \<Longrightarrow> \<not> has_wide_gap s \<Longrightarrow>
   s = pre @ [32] @ post \<and> \<not> has_wide_gap post"
proof (induction s arbitrary: pre rule: find_match.induct)
  case (1 a b cs)
  show ?case
  proof (cases "terminal a \<and> b = 32")
    case True
    with 1(2) have pre: "pre = [a]" and post: "post = dropWhile (\<lambda>x. x = 32) cs" by auto
    have "dropWhile (\<lambda>x. x = 32) cs = cs"
      using 1(3) True by (cases cs) auto
    moreover have "\<not> has_wide_gap cs"
      using 1(3) has_wide_gap_Cons [of cs b] has_wide_gap_Cons [of "b # cs" a] by blast
    ultimately show ?thesis using True pre post by simp
  next
    case False
    with 1(2) obtain pre' where f: "find_match (b # cs) = Some (pre', post)" and pre: "pre = a # pre'"
      by auto
    have "\<not> has_wide_gap (b # cs)"
      using 1(3) has_wide_gap_Cons [of "b # cs" a] by blast
    from 1(1) [OF False f this] show ?thesis by (simp add: pre)
  qed
qed simp_all

lemma join_re_split: "\<not> has_wide_gap s \<Longrightarrow> str_join [32] (re_split s) = s"
proof (induction s rule: re_split.induct)
  case (1 s)
  show ?case
  proof (cases "find_match s")
    case None
    then show ?thesis by (simp add: re_split.simps [of s])
  next
    case (Some pp)
    then obtain pre post where f: "find_match s = Some (pre, post)" by (cases pp) auto
    from find_match_single_gap [OF f "1.prems"] have g: "s = pre @ [32] @ post" "\<not> has_wide_gap post"
      by simp_all
    from 1(1) [OF f refl g(2)] have "str_join [32] (re_split post) = post" .
    then have j: "str_join [32] (pre # re_split post) = pre @ [32] @ post"
      by (simp add: str_join_Cons re_split_nonempty)
    have rs: "re_split s = pre # re_split post"
      using f by (simp add: re_split.simps [of s])
    show ?thesis
      unfolding rs using j g(1) by simp
  qed
qed

lemmas shape_eval = shape_reply_def shorten_reply_def strip_def isspace_def re_split.simps
  terminal_def END_CONVO_def ustr_def

lemma shape_take_rest:
  "shape_reply (ustr ''Take rest. <END_CONVO>'') = (ustr ''Take rest.'', True)"
  by (simp add: shape_eval)

lemma shape_beyond_cutoff:
  "shape_reply (ustr ''A. B. C. D. E. <END_CONVO>'') = (ustr ''A. B. C. D.'', False)"
  by (simp add: shape_eval)

lemma shape_hi_bye:
  "shape_reply (ustr ''Hi. <END_CONVO> Bye'') = (ustr ''Hi.  Bye'', True)"
  by (simp add: shape_eval)

lemma shape_hi_bye_again:
  "shape_reply (ustr ''Hi.  Bye'') = (ustr ''Hi. Bye'', False)"
  by (simp add: shape_eval)

lemma shorten_six_lines: "shorten_reply six_lines 4 = six_lines"
  by (simp add: six_lines_def shape_eval)

lemma shorten_six: "shorten_reply (ustr ''  One. Two!  Three? Four. Five. Six. '') 4 = ustr ''One. Two! Three? Four.''"
  by (simp add: shape_eval)

lemma shape_reply_trimmed: "trimmed (fst (shape_reply raw))"
  by (simp add: shape_reply_def Let_def strip_trimmed)

section \<open>The triage presenter\<close>

text \<open>
  C6, as the code has it.  The presenter (lines 225 to 240 of \<^verbatim>\<open>main.py\<close>) is total:
  for every level string, among them the four triage levels, color and status are not
  empty.  For a level that is none of the four it returns the color of \<open>Routine\<close> and
  the fixed status text \<^verbatim>\<open>"\<dots> Routine condition"\<close>.
\<close>

theorem present_total:
  "fst (present level) \<noteq> [] \<and> snd (present level) \<noteq> [] \<and>
   (level \<notin> levels \<longrightarrow>
      present level = (fst (present (ustr ''Routine'')), [128994] @ ustr '' Routine condition''))"
proof -
  have "level \<notin> levels \<longrightarrow>
      present level = (fst (present (ustr ''Routine'')), [128994] @ ustr '' Routine condition'')"
    by (simp add: levels_def present_def triage_display_def dict_get_def ustr_def)
  then show ?thesis
    using present_nonempty [of level] by blast
qed

theorem present_total_witness:
  "ustr ''Critical'' \<notin> levels \<and>
   present (ustr ''Critical'') = (ustr ''#2a9d8f'', [128994] @ ustr '' Routine condition'')"
  using present_total [of "ustr ''Critical''"]
  by (simp add: levels_def present_def triage_display_def dict_get_def ustr_def)

text \<open>
  C6 as the claim states it fails: the fallback status of an unrecognised level is not
  the status of \<open>Routine\<close>.
\<close>

theorem present_fallback_counterexample:
  "ustr ''Critical'' \<notin> levels \<and>
   snd (present (ustr ''Critical'')) \<noteq> snd (present (ustr ''Routine''))"
  by (simp add: levels_def present_def triage_display_def dict_get_def ustr_def)

section \<open>The turn handler\<close>





text \<open>The response of the route at the total backend failure.\<close>

lemma chat_env_down_value:
  "fst (chat env_down req_hi st_empty) =
     Inr \<lparr>success = True, response_text = UNEXPECTED_REPLY,
          triage = \<lparr>t_level = ustr ''Routine'', t_reason = DEFAULT_REASON,
                    t_color = ustr ''#2a9d8f'',
                    t_status = [128994] @ ustr '' Routine '' @ [8212] @
                               ustr '' No red flags; symptoms appear non-urgent.'',
                    t_severity_flag = False\<rparr>,
          structured_data = []\<rparr>"
proof -
  have h1: "list_all has_role (session_turns (SESSIONS st_empty) (resolve_sid env_down req_hi))"
    by (simp add: st_empty_turns)
  have flag: "fst (snd (chat_turn env_down req_hi st_empty)) = False"
    by (simp add: chat_turn_def Let_def env_down_def doctor_reply_def split: prod.splits)
  show ?thesis
    by (simp add: chat_reaches_triage [OF h1] chat_triage_def Let_def chat_turn_env_down flag)
       (simp add: env_down_def dict_get_def present_def triage_display_def ustr_def)
qed

section \<open>The transcript for the extractor\<close>

text \<open>
  C2, as the code has it.  For every state whose stored turns of the session are turns
  as the route stores them, the transcript handed to the extractor is the lines
  \<^verbatim>\<open>role: text\<close> of the session's turns, joined by newlines: the lines of the turns
  stored before, then \<^verbatim>\<open>user: \<close> with the patient message and \<^verbatim>\<open>assistant: \<close> with the
  reply.  The speaker name of every line is \<^verbatim>\<open>user\<close> or \<^verbatim>\<open>assistant\<close>.
\<close>

theorem chat_transcript_lines:
  assumes "list_all stored_turn (session_turns (SESSIONS st) (resolve_sid E req))"
  shows "chat_transcript E req st =
           Inr (str_join [10]
             (map render (session_turns (SESSIONS st) (resolve_sid E req)) @
              [ustr ''user: '' @ message req,
               ustr ''assistant: '' @ fst (chat_turn E req st)])) \<and>
         (\<forall>m \<in> set (session_turns (SESSIONS (snd (chat E req st))) (resolve_sid E req)).
            dict_get m (ustr ''role'') [] \<in> {ustr ''user'', ustr ''assistant''})"
proof -
  have roles: "list_all has_role (session_turns (SESSIONS st) (resolve_sid E req))"
    using assms by (simp add: list_all_iff stored_turn_has_role)
  have "\<forall>m \<in> set (session_turns (SESSIONS (snd (chat E req st))) (resolve_sid E req)).
      stored_turn m"
    using assms by (auto simp: chat_state session_turns_after list_all_iff stored_turn_mk)
  then have "\<forall>m \<in> set (session_turns (SESSIONS (snd (chat E req st))) (resolve_sid E req)).
      dict_get m (ustr ''role'') [] \<in> {ustr ''user'', ustr ''assistant''}"
    using stored_turn_role by blast
  moreover have "chat_transcript E req st =
           Inr (str_join [10]
             (map render (session_turns (SESSIONS st) (resolve_sid E req)) @
              [ustr ''user: '' @ message req,
               ustr ''assistant: '' @ fst (chat_turn E req st)]))"
    by (simp add: chat_transcript_ok [OF roles] render_mk_message) (simp add: ustr_def)
  ultimately show ?thesis
    by blast
qed

theorem chat_transcript_lines_witness:
  "chat_transcript env_down req_hi st_empty =
     Inr (ustr ''user: hi'' @ [10] @ ustr ''assistant: '' @ UNEXPECTED_REPLY)"
proof -
  have h: "list_all stored_turn (session_turns (SESSIONS st_empty) (resolve_sid env_down req_hi))"
    by (simp add: st_empty_turns)
  show ?thesis
    using chat_transcript_lines [OF h]
    by (simp add: st_empty_turns chat_turn_env_down) (simp add: req_hi_def ustr_def)
qed

text \<open>
  C2 as the claim states it fails: the transcript of a first turn is not the one with
  the speaker names \<^verbatim>\<open>patient\<close> and \<^verbatim>\<open>doctor\<close>.
\<close>

theorem chat_transcript_counterexample:
  "chat_transcript env_down req_hi st_empty \<noteq>
     Inr (ustr ''patient: hi'' @ [10] @ ustr ''doctor: '' @ UNEXPECTED_REPLY)"
proof -
  have h: "list_all has_role (session_turns (SESSIONS st_empty) (resolve_sid env_down req_hi))"
    by (simp add: st_empty_turns)
  show ?thesis
    by (simp add: chat_transcript_ok [OF h] st_empty_turns chat_turn_env_down render_mk_message)
       (simp add: req_hi_def ustr_def)
qed

section \<open>The session store and the message log\<close>

text \<open>
  C8.  Every turn handled for a session id leaves that session's list as it was, or
  empty for a new id, with exactly two turns appended: first the turn of the patient
  (role \<^verbatim>\<open>user\<close>) with the incoming message, then the turn of the doctor (role
  \<^verbatim>\<open>assistant\<close>) with the reply; the list of every other session id is unchanged; and
  the reply that a returned response carries is the one stored.  This holds for every
  outcome of the route, also when an exception ends it.
\<close>

theorem chat_appends_two_turns:
  "SESSIONS (snd (chat E req st)) (resolve_sid E req) =
     Some (session_turns (SESSIONS st) (resolve_sid E req) @
           [mk_message (ustr ''user'') (message req),
            mk_message (ustr ''assistant'') (fst (chat_turn E req st))]) \<and>
   (\<forall>other. other \<noteq> resolve_sid E req \<longrightarrow>
      SESSIONS (snd (chat E req st)) other = SESSIONS st other) \<and>
   (\<forall>resp. fst (chat E req st) = Inr resp \<longrightarrow> response_text resp = fst (chat_turn E req st))"
proof -
  have "\<forall>resp. fst (chat E req st) = Inr resp \<longrightarrow> response_text resp = fst (chat_turn E req st)"
    by (auto simp: chat_def chat_triage_def Let_def split: prod.splits sum.splits option.splits)
  then show ?thesis
    by (simp add: chat_state chat_turn_sessions)
qed

theorem chat_appends_two_turns_witness:
  "SESSIONS (snd (chat env_down req_hi st_other)) (ustr ''a'') =
     Some [mk_message (ustr ''user'') (ustr ''hi''),
           mk_message (ustr ''assistant'') UNEXPECTED_REPLY] \<and>
   SESSIONS (snd (chat env_down req_hi st_other)) (ustr ''b'') = SESSIONS st_other (ustr ''b'')"
proof -
  have ne: "ustr ''b'' \<noteq> resolve_sid env_down req_hi"
    by (simp add: resolve_sid_req_hi ustr_def)
  have old: "session_turns (SESSIONS st_other) (ustr ''a'') = []"
    by (simp add: session_turns_def st_other_def ustr_def)
  show ?thesis
    using chat_appends_two_turns [of env_down req_hi st_other] ne old
    by (simp add: resolve_sid_req_hi chat_turn_env_down) (simp add: req_hi_def)
qed

text \<open>
  C10.  Handling a turn for a session id that is not in the session store clears the
  one global message log: after the turn the log holds the two messages of this turn
  and nothing that was logged before, while the entries of the session store for
  other ids are unchanged.
\<close>

theorem chat_new_session_clears_logs:
  assumes "SESSIONS st (resolve_sid E req) = None"
  shows "message_logs (snd (chat E req st)) =
           [[(ustr ''role'', ustr ''patient''), (ustr ''message'', message req)],
            [(ustr ''role'', ustr ''doctor''), (ustr ''message'', fst (chat_turn E req st))]] \<and>
         (\<forall>other. other \<noteq> resolve_sid E req \<longrightarrow>
            SESSIONS (snd (chat E req st)) other = SESSIONS st other)"
  using assms by (simp add: chat_state chat_turn_logs chat_turn_sessions)

theorem chat_new_session_clears_logs_witness:
  "message_logs st_other \<noteq> [] \<and>
   message_logs (snd (chat env_down req_hi st_other)) =
     [[(ustr ''role'', ustr ''patient''), (ustr ''message'', ustr ''hi'')],
      [(ustr ''role'', ustr ''doctor''), (ustr ''message'', UNEXPECTED_REPLY)]] \<and>
   SESSIONS (snd (chat env_down req_hi st_other)) (ustr ''b'') = SESSIONS st_other (ustr ''b'')"
proof -
  have new: "SESSIONS st_other (resolve_sid env_down req_hi) = None"
    by (simp add: resolve_sid_req_hi st_other_def ustr_def)
  have ne: "ustr ''b'' \<noteq> resolve_sid env_down req_hi"
    by (simp add: resolve_sid_req_hi ustr_def)
  have logs: "message_logs st_other \<noteq> []"
    by (simp add: st_other_def)
  show ?thesis
    using chat_new_session_clears_logs [OF new] ne logs
    by (simp add: chat_turn_env_down) (simp add: req_hi_def)
qed

section \<open>The reply generator on a failed inference call\<close>

text \<open>
  C5, as the code has it.  For every failure of the inference call (an error response,
  an empty response or any other exception) the reply generator returns the
  completion flag false together with a fallback reply that is not empty and is one
  of four fixed texts, chosen by the kind of failure: one for an empty response, one
  for an error response that mentions \<^verbatim>\<open>system memory\<close>, one for any other error
  response, one for any other exception.
\<close>

theorem doctor_reply_failure:
  assumes "inference_failed (backend (build_messages hist tc))"
  shows "\<exists>reply. doctor_reply backend hist tc = Inr (reply, False) \<and> reply \<noteq> [] \<and>
           reply \<in> {EMPTY_RESPONSE_REPLY, MEMORY_REPLY, RESPONSE_ERROR_REPLY, UNEXPECTED_REPLY} \<and>
           (\<forall>response. backend (build_messages hist tc) = Inr response \<longrightarrow>
              reply = EMPTY_RESPONSE_REPLY) \<and>
           (\<forall>msg. backend (build_messages hist tc) = Inl (ResponseError msg) \<longrightarrow>
              reply = (if str_contains (ustr ''system memory'') msg then MEMORY_REPLY
                       else RESPONSE_ERROR_REPLY)) \<and>
           (\<forall>msg. backend (build_messages hist tc) = Inl (KeyError msg) \<or>
                  backend (build_messages hist tc) = Inl (Exception msg) \<longrightarrow>
              reply = UNEXPECTED_REPLY)"
proof (cases "backend (build_messages hist tc)")
  case (Inl e)
  then show ?thesis
    by (cases e) (simp_all add: doctor_reply_def fallback_replies_nonempty)
next
  case (Inr response)
  then show ?thesis
    using assms by (simp add: doctor_reply_def inference_failed_def fallback_replies_nonempty)
qed

theorem doctor_reply_failure_witness:
  "doctor_reply backend_error history_with_empty_turn None = Inr (RESPONSE_ERROR_REPLY, False)"
proof -
  have h: "inference_failed (backend_error (build_messages history_with_empty_turn None))"
    by (simp add: inference_failed_def backend_error_def)
  have m: "\<not> str_contains (ustr ''system memory'') (ustr ''model not found'')"
    by (simp add: ustr_def)
  show ?thesis
    using doctor_reply_failure [of backend_error history_with_empty_turn None] h m
    by (auto simp: backend_error_def)
qed

text \<open>
  C5 as the claim states it fails: an empty response and an error response are two
  failures with two different replies, so the reply is not one fixed text.
\<close>

theorem doctor_reply_failure_counterexample:
  "inference_failed (backend_empty (build_messages [] None)) \<and>
   inference_failed (backend_error (build_messages [] None)) \<and>
   doctor_reply backend_empty [] None = Inr (EMPTY_RESPONSE_REPLY, False) \<and>
   doctor_reply backend_error [] None = Inr (RESPONSE_ERROR_REPLY, False) \<and>
   EMPTY_RESPONSE_REPLY \<noteq> RESPONSE_ERROR_REPLY"
  by (simp add: inference_failed_def backend_empty_def backend_error_def doctor_reply_def
      dict_get_def)
     (simp add: EMPTY_RESPONSE_REPLY_def RESPONSE_ERROR_REPLY_def ustr_def)

section \<open>The messages for the inference backend\<close>

text \<open>
  C7, as the code has it.  For every history of turns as the route stores them, the
  messages for the backend are the system instruction followed by the turns whose
  text is not empty, unchanged and in the order of the conversation.  A turn with an
  empty text is left out (line 33).
\<close>

theorem build_messages_replays_turns:
  assumes "list_all stored_turn hist"
  shows "build_messages hist None =
           mk_message (ustr ''system'') SYSTEM_PROMPT #
           filter (\<lambda>m. dict_get m (ustr ''content'') [] \<noteq> []) hist"
  using assms by (simp add: build_messages_def build_loop_stored)

theorem build_messages_replays_turns_witness:
  "build_messages history_with_empty_turn None =
     [mk_message (ustr ''system'') SYSTEM_PROMPT,
      mk_message (ustr ''user'') (ustr ''hi''),
      mk_message (ustr ''user'') (ustr ''ok'')]"
proof -
  have h: "list_all stored_turn history_with_empty_turn"
    by (simp add: history_with_empty_turn_def stored_turn_mk)
  show ?thesis
    using build_messages_replays_turns [OF h]
    by (simp add: history_with_empty_turn_def content_mk) (simp add: ustr_def)
qed

text \<open>
  C7 as the claim states it fails: with a stored reply of empty text the messages are
  not the system instruction followed by all the turns.
\<close>

theorem build_messages_omits_counterexample:
  "list_all stored_turn history_with_empty_turn \<and>
   build_messages history_with_empty_turn None \<noteq>
     mk_message (ustr ''system'') SYSTEM_PROMPT # history_with_empty_turn"
proof -
  have h: "list_all stored_turn history_with_empty_turn"
    by (simp add: history_with_empty_turn_def stored_turn_mk)
  have c: "ustr ''hi'' \<noteq> []" "ustr ''ok'' \<noteq> []"
    by (simp_all add: ustr_def)
  have "length (build_messages history_with_empty_turn None) = 3"
    by (simp add: build_messages_def build_loop_stored [OF h])
       (simp add: history_with_empty_turn_def content_mk c)
  moreover have "length (mk_message (ustr ''system'') SYSTEM_PROMPT # history_with_empty_turn) = 4"
    by (simp add: history_with_empty_turn_def)
  ultimately show ?thesis
    using h by auto
qed

section \<open>The reply shaper\<close>

text \<open>
  C4, as the code has it.  The shaper returns the empty string for the empty input.
  Every other input, stripped, divides into sentences at the terminal characters
  \<^verbatim>\<open>.\<close>, \<^verbatim>\<open>!\<close> and \<^verbatim>\<open>?\<close> that are followed by one or more space characters (code point
  32), and for every such division the result is the first \<open>n\<close> sentences (4 in the
  reply generator) joined by single spaces.  Whitespace other than the space
  character, such as a newline, does not end a sentence.
\<close>

theorem shorten_reply_sentences:
  "shorten_reply [] n = [] \<and>
   (text \<noteq> [] \<longrightarrow>
      (\<exists>s rest. strip text = weave s rest \<and> sentences_ok s rest) \<and>
      (\<forall>s rest. strip text = weave s rest \<and> sentences_ok s rest \<longrightarrow>
         shorten_reply text n = str_join (ustr '' '') (take n (s # map snd rest))))"
proof -
  have "shorten_reply text n = str_join (ustr '' '') (take n (s # map snd rest))"
    if "text \<noteq> []" "strip text = weave s rest" "sentences_ok s rest" for s rest
    using that by (simp add: shorten_reply_def re_split_weave)
  then show ?thesis
    using sentences_exist [of "strip text"] by (auto simp: shorten_reply_def)
qed

text \<open>Six sentences: the first four are returned, joined by single spaces.\<close>

theorem shorten_reply_sentences_witness:
  "shorten_reply six_sentences 4 = ustr ''One. Two! Three? Four.''"
proof -
  have ne: "six_sentences \<noteq> []"
    by (simp add: six_sentences_def ustr_def)
  have d: "strip six_sentences = weave (ustr ''One.'') six_rest"
    by (simp add: six_sentences_def six_rest_def strip_def isspace_def ustr_def numeral_2_eq_2)
  have ok: "sentences_ok (ustr ''One.'') six_rest"
    by (simp add: six_rest_def terminal_def starts_with_space_def ustr_def)
  from shorten_reply_sentences [of 4 six_sentences] ne d ok
  have "shorten_reply six_sentences 4 =
      str_join (ustr '' '') (take 4 (ustr ''One.'' # map snd six_rest))"
    by blast
  then show ?thesis
    by (simp add: six_rest_def ustr_def)
qed

text \<open>
  C4 as the claim states it fails: six sentences, each terminal character followed by
  the whitespace character newline, come back whole and not as the first four.
\<close>

theorem shorten_reply_newline_counterexample:
  "isspace 10 \<and> shorten_reply six_lines 4 = six_lines \<and>
   shorten_reply six_lines 4 \<noteq> ustr ''A. B. C. D.''"
  by (simp add: shorten_six_lines) (simp add: isspace_def six_lines_def ustr_def)

text \<open>
  C3.  The shaper truncates first and looks for the marker in the truncated text only:
  the completion flag is true exactly when the marker occurs somewhere in the
  truncated text; the truncated text is pieces without the marker joined by the
  marker, and the cleaned text is these pieces put together and stripped, so every
  occurrence is removed; the cleaned text is trimmed; without the marker in the
  truncated text the flag is false and the cleaned text is the truncated text,
  stripped.  \<^verbatim>\<open>"Take rest. <END_CONVO>"\<close> gives \<^verbatim>\<open>"Take rest."\<close> and true; with the marker
  only after the fourth sentence the flag is false.
\<close>

theorem shape_reply_marker:
  "(snd (shape_reply raw) \<longleftrightarrow> (\<exists>pre post. shorten_reply raw 4 = pre @ END_CONVO @ post)) \<and>
   (\<exists>parts. shorten_reply raw 4 = str_join END_CONVO parts \<and>
      (\<forall>p \<in> set parts. \<not> str_contains END_CONVO p) \<and>
      fst (shape_reply raw) = strip (concat parts)) \<and>
   trimmed (fst (shape_reply raw)) \<and>
   (\<not> snd (shape_reply raw) \<longrightarrow> fst (shape_reply raw) = strip (shorten_reply raw 4)) \<and>
   shape_reply (ustr ''Take rest. <END_CONVO>'') = (ustr ''Take rest.'', True) \<and>
   shape_reply (ustr ''A. B. C. D. E. <END_CONVO>'') = (ustr ''A. B. C. D.'', False)"
proof -
  have a: "snd (shape_reply raw) \<longleftrightarrow> (\<exists>pre post. shorten_reply raw 4 = pre @ END_CONVO @ post)"
    by (simp add: shape_reply_def Let_def str_contains_iff)
  obtain parts where p: "shorten_reply raw 4 = str_join END_CONVO parts"
      "\<forall>p \<in> set parts. \<not> str_contains END_CONVO p"
      "str_replace END_CONVO [] (shorten_reply raw 4) = str_join [] parts"
    using str_replace_parts [OF END_CONVO_nonempty, of "shorten_reply raw 4" "[]"] by blast
  have "fst (shape_reply raw) = strip (concat parts)"
    by (simp add: shape_reply_def Let_def p(3) str_join_empty_sep)
  with p have b: "\<exists>parts. shorten_reply raw 4 = str_join END_CONVO parts \<and>
      (\<forall>p \<in> set parts. \<not> str_contains END_CONVO p) \<and>
      fst (shape_reply raw) = strip (concat parts)"
    by blast
  have c: "\<not> snd (shape_reply raw) \<longrightarrow> fst (shape_reply raw) = strip (shorten_reply raw 4)"
    by (simp add: shape_reply_def Let_def str_replace_absent END_CONVO_nonempty)
  show ?thesis
    using a b c shape_reply_trimmed [of raw] shape_take_rest shape_beyond_cutoff by blast
qed

theorem shape_reply_marker_witness:
  "(\<exists>pre post. shorten_reply (ustr ''Take rest. <END_CONVO>'') 4 = pre @ END_CONVO @ post) \<and>
   fst (shape_reply (ustr ''Take rest. <END_CONVO>'')) = ustr ''Take rest.'' \<and>
   str_contains END_CONVO (ustr ''A. B. C. D. E. <END_CONVO>'') \<and>
   \<not> snd (shape_reply (ustr ''A. B. C. D. E. <END_CONVO>''))"
proof -
  have "str_contains END_CONVO (ustr ''A. B. C. D. E. <END_CONVO>'')"
    by (simp add: END_CONVO_def ustr_def)
  then show ?thesis
    using shape_reply_marker [of "ustr ''Take rest. <END_CONVO>''"]
    by (simp add: shape_take_rest shape_beyond_cutoff)
qed

text \<open>
  C9, as the code has it.  For every text that is an output of the shaper, has no
  marker, has at most 4 sentences and has no terminal character followed by two
  spaces, shaping it again returns the same text, with the flag false.
\<close>

theorem shape_reply_idempotent:
  assumes out: "t = fst (shape_reply raw)"
      and marker: "\<not> str_contains END_CONVO t"
      and four: "length (re_split t) \<le> 4"
      and gaps: "\<not> has_wide_gap t"
  shows "shape_reply t = (t, False)"
proof -
  have st: "strip t = t"
    using shape_reply_trimmed [of raw] out by (simp add: trimmed_strip)
  have "shorten_reply t 4 = t"
  proof (cases "t = []")
    case True
    then show ?thesis by (simp add: shorten_reply_def)
  next
    case False
    then show ?thesis
      using four gaps by (simp add: shorten_reply_def st ustr_space join_re_split)
  qed
  then show ?thesis
    using marker st by (simp add: shape_reply_def Let_def str_replace_absent END_CONVO_nonempty)
qed

theorem shape_reply_idempotent_witness:
  "shape_reply (ustr ''Take rest.'') = (ustr ''Take rest.'', False)"
proof -
  have out: "ustr ''Take rest.'' = fst (shape_reply (ustr ''Take rest. <END_CONVO>''))"
    by (simp add: shape_take_rest)
  have marker: "\<not> str_contains END_CONVO (ustr ''Take rest.'')"
    by (simp add: END_CONVO_def ustr_def)
  have four: "length (re_split (ustr ''Take rest.'')) \<le> 4"
    by (simp add: re_split.simps terminal_def ustr_def)
  have gaps: "\<not> has_wide_gap (ustr ''Take rest.'')"
    by (simp add: terminal_def ustr_def)
  show ?thesis
    by (rule shape_reply_idempotent [OF out marker four gaps])
qed

text \<open>
  C9 as the claim states it fails: removing a marker between two spaces leaves two
  spaces after the sentence end, and the second shaping makes one space of them.
\<close>

theorem shape_reply_idempotent_counterexample:
  "ustr ''Hi.  Bye'' = fst (shape_reply (ustr ''Hi. <END_CONVO> Bye'')) \<and>
   \<not> str_contains END_CONVO (ustr ''Hi.  Bye'') \<and>
   length (re_split (ustr ''Hi.  Bye'')) \<le> 4 \<and>
   fst (shape_reply (ustr ''Hi.  Bye'')) \<noteq> ustr ''Hi.  Bye''"
  by (simp add: shape_hi_bye shape_hi_bye_again)
     (simp add: END_CONVO_def re_split.simps terminal_def ustr_def)

end
